theory Spec2Isabelle
  imports Complex_Main "HOL-Library.Word" "HOL-Library.Sublist"
begin

section \<open>Motion Simon Says: an embedding of \<^verbatim>\<open>Simon_Says.ino\<close>\<close>

text \<open>
  The sketch is a single-threaded Arduino program: \<^verbatim>\<open>setup()\<close> runs once, then
  \<^verbatim>\<open>loop()\<close> runs for ever. Its globals and the two \<^verbatim>\<open>static\<close> locals become the
  fields of one record, every function becomes a state transformer, and every call into a
  library that acts on the outside world (display, serial port, bus, \<^verbatim>\<open>delay\<close>) appends one
  event to a trace, oldest event first. What the outside world hands to the program (button
  level, accelerometer samples, raw pseudo-random numbers, outcome of a bring-up attempt) is
  an explicit argument.
\<close>

subsection \<open>Configuration\<close>

type_synonym time = "32 word" \<comment> \<open>\<^verbatim>\<open>unsigned long\<close> / \<^verbatim>\<open>uint32_t\<close> on the ESP32\<close>

definition I2C_SDA :: int where "I2C_SDA = 21"
definition I2C_SCL :: int where "I2C_SCL = 22"
definition I2C_SPEED :: int where "I2C_SPEED = 100000"
definition OLED_ADDRESS :: int where "OLED_ADDRESS = 60"
definition MPU_ADDRESS :: int where "MPU_ADDRESS = 104"
definition BUTTON_PIN :: int where "BUTTON_PIN = 15"
definition WHITE :: int where "WHITE = 1"

definition MAX_LEVEL :: int where "MAX_LEVEL = 10"
definition MOVE_DELAY :: time where "MOVE_DELAY = 800"
definition INPUT_TIMEOUT :: time where "INPUT_TIMEOUT = 3000"

definition PITCH_THRESHOLD :: int where "PITCH_THRESHOLD = 25"
definition ROLL_THRESHOLD :: int where "ROLL_THRESHOLD = 15"

subsection \<open>The outside world\<close>

datatype event =
    SerialBegin int
  | SerialPrintln string
  | PinModePullup int
  | WireBegin int int
  | WireSetClock int
  | WireEnd
  | WireBeginTransmission int
  | WireEndTransmission
  | MpuBegin int
  | MpuSetAccelerometerRange
  | MpuSetGyroRange
  | MpuSetFilterBandwidth
  | OledBegin int
  | RandomSeed
  | ClearDisplay
  | SetTextSize int
  | SetTextColor int
  | SetCursor int int
  | Print string
  | Println string
  | PrintlnInt int
  | FillRect int int int int int
  | FillTriangle int int int int int int int
  | Display
  | Delay time

text \<open>One accelerometer sample, \<^verbatim>\<open>a.acceleration.{x,y,z}\<close>: three finite \<^verbatim>\<open>float\<close>
  values, each a real number.\<close>

record accel =
  ax :: real
  ay :: real
  az :: real

text \<open>The value of a \<^verbatim>\<open>float\<close> variable: a finite number, an infinity, or not a number.\<close>

datatype fval = Fin real | PosInf | NegInf | NaN

text \<open>The comparison \<^verbatim>\<open><\<close> of IEEE 754: false as soon as one side is not a number.\<close>

fun fless :: "fval \<Rightarrow> fval \<Rightarrow> bool" where
  "fless NaN y = False"
| "fless x NaN = False"
| "fless (Fin x) (Fin y) = (x < y)"
| "fless x NegInf = False"
| "fless NegInf y = True"
| "fless PosInf y = False"
| "fless x PosInf = True"

text \<open>An \<^verbatim>\<open>int\<close> operand of a comparison with a \<^verbatim>\<open>float\<close> is converted to \<^verbatim>\<open>float\<close>; the
  thresholds are small integers, which the conversion represents exactly.\<close>

definition fval_of_int :: "int \<Rightarrow> fval" where
  "fval_of_int i = Fin (real_of_int i)"

text \<open>What one pass through \<^verbatim>\<open>loop()\<close> reads from the outside: the two
  \<^verbatim>\<open>digitalRead(BUTTON_PIN) == LOW\<close> tests, the sample that \<^verbatim>\<open>mpu.getEvent\<close> delivers inside
  each of the four tilt queries, and the raw outputs of the pseudo-random generator after
  \<^verbatim>\<open>randomSeed\<close> (the \<open>i\<close>-th call of \<^verbatim>\<open>random\<close> consumes \<open>rawRandom i\<close>).

  The floating-point arithmetic of the target is not modelled. It is an input as well:
  \<open>pitchOf a\<close> is the value that the target stores in the variable \<^verbatim>\<open>pitch\<close> when it
  evaluates \<^verbatim>\<open>atan2(-ax, sqrt(ay*ay + az*az))*180/PI\<close> on the sample \<open>a\<close>, and \<open>rollOf a\<close> the
  value it stores in \<^verbatim>\<open>roll\<close> for \<^verbatim>\<open>atan2(ay, az)*180/PI\<close>.\<close>

record env =
  buttonLow1 :: bool
  buttonLow2 :: bool
  sampleUp :: accel
  sampleDown :: accel
  sampleLeft :: accel
  sampleRight :: accel
  pitchOf :: "accel \<Rightarrow> fval"
  rollOf :: "accel \<Rightarrow> fval"
  rawRandom :: "nat \<Rightarrow> nat"

text \<open>What \<^verbatim>\<open>setup()\<close> meets: whether the \<open>i\<close>-th attempt (counted from 0) to reach the
  bus, the sensor and the display succeeds.\<close>

record hw =
  i2cAck :: "nat \<Rightarrow> bool"
  mpuOk :: "nat \<Rightarrow> bool"
  oledOk :: "nat \<Rightarrow> bool"

subsection \<open>Program state\<close>

record sys =
  sequence :: "int list"      \<comment> \<open>\<^verbatim>\<open>int sequence[MAX_LEVEL]\<close>\<close>
  currentLevel :: int
  gameStarted :: bool
  gameOver :: bool
  lastInputTime :: time
  currentMove :: int          \<comment> \<open>\<^verbatim>\<open>static int currentMove\<close> of \<^verbatim>\<open>checkPlayerInput\<close>\<close>
  lastRecovery :: time        \<comment> \<open>\<^verbatim>\<open>static uint32_t lastRecovery\<close> of \<^verbatim>\<open>loop\<close>\<close>
  clock :: time               \<comment> \<open>the millisecond counter behind \<^verbatim>\<open>millis()\<close>\<close>
  trace :: "event list"

text \<open>The state when \<^verbatim>\<open>setup()\<close> is entered: globals as initialised in the sketch, the
  array zero-filled as C++ does for a global.\<close>

definition power_on :: sys where
  "power_on = \<lparr> sequence = replicate (nat MAX_LEVEL) 0, currentLevel = 1,
     gameStarted = False, gameOver = False, lastInputTime = 0, currentMove = 0,
     lastRecovery = 0, clock = 0, trace = [] \<rparr>"

definition emit :: "event \<Rightarrow> sys \<Rightarrow> sys" where
  "emit e s = s\<lparr>trace := trace s @ [e]\<rparr>"

definition millis :: "sys \<Rightarrow> time" where
  "millis s = clock s"

text \<open>\<^verbatim>\<open>delay(n)\<close> blocks for \<open>n\<close> ms. Time passes only inside \<^verbatim>\<open>delay\<close>: the cost of
  computation and bus traffic is taken as zero.\<close>

definition delay :: "time \<Rightarrow> sys \<Rightarrow> sys" where
  "delay n s = emit (Delay n) (s\<lparr>clock := clock s + n\<rparr>)"

text \<open>Arduino's \<^verbatim>\<open>random(howbig)\<close>: the raw generator output reduced modulo \<open>howbig\<close>
  (0 when \<open>howbig\<close> is 0).\<close>

definition random_max :: "nat \<Rightarrow> nat \<Rightarrow> int" where
  "random_max howbig raw = (if howbig = 0 then 0 else int (raw mod howbig))"

subsection \<open>Screens and glyphs\<close>

definition showStartScreen :: "sys \<Rightarrow> sys" where
  "showStartScreen s =
     (let s = emit ClearDisplay s;
          s = emit (SetTextSize 1) s;
          s = emit (SetTextColor WHITE) s;
          s = emit (SetCursor 0 0) s;
          s = emit (Println ''Simon Says Game'') s;
          s = emit (Println '''') s;
          s = emit (Println ''Press the button'') s;
          s = emit (Println ''to start!'') s
      in emit Display s)"

definition showGameOverScreen :: "sys \<Rightarrow> sys" where
  "showGameOverScreen s =
     (let s = emit ClearDisplay s;
          s = emit (SetTextSize 1) s;
          s = emit (SetTextColor WHITE) s;
          s = emit (SetCursor 0 0) s;
          s = emit (Println ''Game Over!'') s;
          s = emit (Print ''Level: '') s;
          s = emit (PrintlnInt (currentLevel s - 1)) s;
          s = emit (Println '''') s;
          s = emit (Println ''Press button'') s;
          s = emit (Println ''to play again'') s
      in emit Display s)"

definition UpArrow :: "sys \<Rightarrow> sys" where
  "UpArrow s =
     (let s = emit ClearDisplay s;
          s = emit (FillRect 60 32 8 16 WHITE) s;
          s = emit (FillTriangle 64 16 54 32 74 32 WHITE) s
      in emit Display s)"

definition DownArrow :: "sys \<Rightarrow> sys" where
  "DownArrow s =
     (let s = emit ClearDisplay s;
          s = emit (FillRect 60 16 8 16 WHITE) s;
          s = emit (FillTriangle 64 48 54 32 74 32 WHITE) s
      in emit Display s)"

definition LeftArrow :: "sys \<Rightarrow> sys" where
  "LeftArrow s =
     (let s = emit ClearDisplay s;
          s = emit (FillRect 64 28 16 8 WHITE) s;
          s = emit (FillTriangle 48 32 64 22 64 42 WHITE) s
      in emit Display s)"

definition RightArrow :: "sys \<Rightarrow> sys" where
  "RightArrow s =
     (let s = emit ClearDisplay s;
          s = emit (FillRect 48 28 16 8 WHITE) s;
          s = emit (FillTriangle 80 32 64 22 64 42 WHITE) s
      in emit Display s)"

text \<open>The \<^verbatim>\<open>switch\<close> has no \<^verbatim>\<open>default\<close>: any other value draws nothing.\<close>

definition showArrow :: "int \<Rightarrow> sys \<Rightarrow> sys" where
  "showArrow direction s =
     (if direction = 0 then UpArrow s
      else if direction = 1 then DownArrow s
      else if direction = 2 then LeftArrow s
      else if direction = 3 then RightArrow s
      else s)"

subsection \<open>Motion detection\<close>

text \<open>Each query computes its angle from the sample it has just read and compares it with
  the threshold; the first argument is the computation of the angle (see \<open>env\<close>).\<close>

definition isTiltUp :: "(accel \<Rightarrow> fval) \<Rightarrow> accel \<Rightarrow> bool" where
  "isTiltUp compute a =
     (let pitch = compute a in fless pitch (fval_of_int (- PITCH_THRESHOLD)))"

definition isTiltDown :: "(accel \<Rightarrow> fval) \<Rightarrow> accel \<Rightarrow> bool" where
  "isTiltDown compute a =
     (let pitch = compute a in fless (fval_of_int PITCH_THRESHOLD) pitch)"

definition isTiltLeft :: "(accel \<Rightarrow> fval) \<Rightarrow> accel \<Rightarrow> bool" where
  "isTiltLeft compute a =
     (let roll = compute a in fless roll (fval_of_int (- ROLL_THRESHOLD)))"

definition isTiltRight :: "(accel \<Rightarrow> fval) \<Rightarrow> accel \<Rightarrow> bool" where
  "isTiltRight compute a =
     (let roll = compute a in fless (fval_of_int ROLL_THRESHOLD) roll)"

subsection \<open>Game engine\<close>

text \<open>The playback loop \<^verbatim>\<open>for (int i = 0; i < currentLevel; i++)\<close>.\<close>

function playSequence_loop :: "int \<Rightarrow> sys \<Rightarrow> sys" where
  "playSequence_loop i s =
     (if i < currentLevel s then
        (let s = showArrow (sequence s ! nat i) s;
             s = delay MOVE_DELAY s;
             s = emit ClearDisplay s;
             s = emit Display s;
             s = delay 300 s
         in playSequence_loop (i + 1) s)
      else s)"
  by pat_completeness auto
termination
  by (relation "measure (\<lambda>(i, s). nat (currentLevel s - i))")
     (auto simp: Let_def showArrow_def UpArrow_def DownArrow_def LeftArrow_def RightArrow_def
        delay_def emit_def)

definition playSequence :: "sys \<Rightarrow> sys" where
  "playSequence s =
     (let s = emit ClearDisplay s;
          s = emit (SetTextSize 1) s;
          s = emit (SetTextColor WHITE) s;
          s = emit (SetCursor 0 0) s;
          s = emit (Print ''Level '') s;
          s = emit (PrintlnInt (currentLevel s)) s;
          s = emit Display s;
          s = delay 1000 s;
          s = playSequence_loop 0 s
      in s\<lparr>lastInputTime := millis s\<rparr>)"

text \<open>The generation loop \<^verbatim>\<open>for (int i = 0; i < MAX_LEVEL; i++) sequence[i] = random(4)\<close>.\<close>

function startGame_loop :: "env \<Rightarrow> int \<Rightarrow> sys \<Rightarrow> sys" where
  "startGame_loop e i s =
     (if i < MAX_LEVEL then
        startGame_loop e (i + 1)
          (s\<lparr>sequence := (sequence s)[nat i := random_max 4 (rawRandom e (nat i))]\<rparr>)
      else s)"
  by pat_completeness auto
termination
  by (relation "measure (\<lambda>(e, i, s). nat (MAX_LEVEL - i))") auto

text \<open>Everything \<^verbatim>\<open>startGame\<close> does before it calls \<^verbatim>\<open>playSequence\<close>.\<close>

definition startGame_generate :: "env \<Rightarrow> sys \<Rightarrow> sys" where
  "startGame_generate e s =
     (let s = s\<lparr>gameStarted := True\<rparr>;
          s = s\<lparr>gameOver := False\<rparr>;
          s = s\<lparr>currentLevel := 1\<rparr>;
          s = emit RandomSeed s
      in startGame_loop e 0 s)"

definition startGame :: "env \<Rightarrow> sys \<Rightarrow> sys" where
  "startGame e s = playSequence (startGame_generate e s)"

definition resetGame :: "sys \<Rightarrow> sys" where
  "resetGame s =
     (let s = s\<lparr>gameOver := False\<rparr>;
          s = showStartScreen s
      in s\<lparr>gameStarted := False\<rparr>)"

text \<open>\<^verbatim>\<open>handlePlayerMove(int move, int &currentMove)\<close>: the reference parameter is
  always the static of \<^verbatim>\<open>checkPlayerInput\<close>, here the field \<open>currentMove\<close>.\<close>

definition handlePlayerMove :: "int \<Rightarrow> sys \<Rightarrow> sys" where
  "handlePlayerMove move s =
     (let s = UpArrow s;
          s = delay 300 s;
          s = emit ClearDisplay s;
          s = emit Display s
      in if move = sequence s ! nat (currentMove s) then
           (let s = s\<lparr>currentMove := currentMove s + 1\<rparr>;
                s = s\<lparr>lastInputTime := millis s\<rparr>
            in if currentMove s \<ge> currentLevel s then
                 (let s = s\<lparr>currentMove := 0\<rparr>;
                      s = s\<lparr>currentLevel := currentLevel s + 1\<rparr>
                  in if currentLevel s > MAX_LEVEL then
                       (let s = emit ClearDisplay s;
                            s = emit (SetTextSize 1) s;
                            s = emit (SetTextColor WHITE) s;
                            s = emit (SetCursor 0 0) s;
                            s = emit (Println ''You Win!'') s;
                            s = emit (Println ''Perfect Score!'') s;
                            s = emit Display s;
                            s = delay 3000 s;
                            s = s\<lparr>gameOver := True\<rparr>
                        in showGameOverScreen s)
                     else playSequence s)
               else s)
         else
           (let s = s\<lparr>gameOver := True\<rparr>
            in showGameOverScreen s))"

definition checkPlayerInput :: "env \<Rightarrow> sys \<Rightarrow> sys" where
  "checkPlayerInput e s =
     (if millis s - lastInputTime s > INPUT_TIMEOUT then
        (let s = s\<lparr>gameOver := True\<rparr>
         in showGameOverScreen s)
      else if isTiltUp (pitchOf e) (sampleUp e) then handlePlayerMove 0 s
      else if isTiltDown (pitchOf e) (sampleDown e) then handlePlayerMove 1 s
      else if isTiltLeft (rollOf e) (sampleLeft e) then handlePlayerMove 2 s
      else if isTiltRight (rollOf e) (sampleRight e) then handlePlayerMove 3 s
      else s)"

text \<open>One pass through \<^verbatim>\<open>loop()\<close>.\<close>

definition loop :: "env \<Rightarrow> sys \<Rightarrow> sys" where
  "loop e s =
     (let s = (if millis s - lastRecovery s > 60000 then
                 (let s = emit WireEnd s;
                      s = emit (WireBegin I2C_SDA I2C_SCL) s;
                      s = emit (WireSetClock I2C_SPEED) s
                  in s\<lparr>lastRecovery := millis s\<rparr>)
               else s);
          s = (if \<not> gameStarted s \<and> buttonLow1 e then startGame e (delay 200 s) else s);
          s = (if gameStarted s \<and> \<not> gameOver s then checkPlayerInput e s else s);
          s = (if gameOver s \<and> buttonLow2 e then resetGame (delay 200 s) else s)
      in delay 50 s)"

text \<open>A run of the main loop over a finite list of environments.\<close>

fun run :: "env list \<Rightarrow> sys \<Rightarrow> sys" where
  "run [] s = s"
| "run (e # es) s = run es (loop e s)"

subsection \<open>Bring-up\<close>

function initializeI2C_loop :: "hw \<Rightarrow> int \<Rightarrow> sys \<Rightarrow> bool \<times> sys" where
  "initializeI2C_loop h i s =
     (if i < 5 then
        (let s = emit (WireBegin I2C_SDA I2C_SCL) s;
             s = emit (WireSetClock I2C_SPEED) s;
             s = emit (WireBeginTransmission MPU_ADDRESS) s;
             s = emit WireEndTransmission s
         in if i2cAck h (nat i) then (True, s)
            else initializeI2C_loop h (i + 1) (delay 100 s))
      else (False, s))"
  by pat_completeness auto
termination
  by (relation "measure (\<lambda>(h, i, s). nat (5 - i))") auto

definition initializeI2C :: "hw \<Rightarrow> sys \<Rightarrow> bool \<times> sys" where
  "initializeI2C h s = initializeI2C_loop h 0 s"

function initializeMPU_loop :: "hw \<Rightarrow> int \<Rightarrow> sys \<Rightarrow> bool \<times> sys" where
  "initializeMPU_loop h i s =
     (if i < 5 then
        (let s = emit (MpuBegin MPU_ADDRESS) s
         in if mpuOk h (nat i) then (True, s)
            else initializeMPU_loop h (i + 1) (delay 100 s))
      else (False, s))"
  by pat_completeness auto
termination
  by (relation "measure (\<lambda>(h, i, s). nat (5 - i))") auto

definition initializeMPU :: "hw \<Rightarrow> sys \<Rightarrow> bool \<times> sys" where
  "initializeMPU h s = initializeMPU_loop h 0 s"

function initializeOLED_loop :: "hw \<Rightarrow> int \<Rightarrow> sys \<Rightarrow> bool \<times> sys" where
  "initializeOLED_loop h i s =
     (if i < 5 then
        (let s = emit (OledBegin OLED_ADDRESS) s
         in if oledOk h (nat i) then (True, s)
            else initializeOLED_loop h (i + 1) (delay 100 s))
      else (False, s))"
  by pat_completeness auto
termination
  by (relation "measure (\<lambda>(h, i, s). nat (5 - i))") auto

definition initializeOLED :: "hw \<Rightarrow> sys \<Rightarrow> bool \<times> sys" where
  "initializeOLED h s = initializeOLED_loop h 0 s"

text \<open>\<^verbatim>\<open>while (1) { delay(100); }\<close> never returns: its value is \<open>None\<close>.\<close>

partial_function (option) halt :: "sys \<Rightarrow> sys option" where
  "halt s = halt (delay 100 s)"

text \<open>\<^verbatim>\<open>setup()\<close>, from power-on. \<open>Some s\<close> is the state in which \<^verbatim>\<open>loop()\<close> is
  entered for the first time; \<open>None\<close> means that \<^verbatim>\<open>setup()\<close> never returns, so
  \<^verbatim>\<open>loop()\<close> never runs.\<close>

definition setup_sketch :: "hw \<Rightarrow> sys option" where
  "setup_sketch h =
     (let s = emit (SerialBegin 115200) power_on;
          s = delay 2000 s;
          s = emit (PinModePullup BUTTON_PIN) s;
          (i2c_initialized, s) = initializeI2C h s
      in if \<not> i2c_initialized then halt (emit (SerialPrintln ''I2C initialization failed!'') s)
         else
           (let (mpu_initialized, s) = initializeMPU h s
            in if \<not> mpu_initialized then
                 halt (emit (SerialPrintln ''MPU6050 initialization failed!'') s)
               else
                 (let (oled_initialized, s) = initializeOLED h s;
                      s = (if \<not> oled_initialized then
                             emit (SerialPrintln
                               ''OLED initialization failed - continuing without display'') s
                           else s);
                      s = emit MpuSetAccelerometerRange s;
                      s = emit MpuSetGyroRange s;
                      s = emit MpuSetFilterBandwidth s
                  in Some (showStartScreen s))))"

subsection \<open>Reading the state machine off the variables\<close>

text \<open>The sketch has no state variable: the phase of the game is carried by the two flags,
  and a finished game is a win exactly when the level counter has passed \<open>MAX_LEVEL\<close>
  (only the win branch of \<^verbatim>\<open>handlePlayerMove\<close> sets \<open>gameOver\<close> with the counter there).
  Playback of the sequence happens inside \<^verbatim>\<open>playSequence\<close>, which blocks, so no call
  of a function starts or ends in that phase.\<close>

datatype GameState = Idle | ShowingSequence | AwaitingInput | Won | Lost

definition game_state :: "sys \<Rightarrow> GameState" where
  "game_state s =
     (if \<not> gameStarted s then Idle
      else if \<not> gameOver s then AwaitingInput
      else if currentLevel s > MAX_LEVEL then Won
      else Lost)"

text \<open>The gesture that \<^verbatim>\<open>checkPlayerInput\<close> acts on, by the order of its
  \<^verbatim>\<open>if\<close>/\<^verbatim>\<open>else if\<close> chain; \<open>None\<close> when no query fires.\<close>

definition gesture :: "env \<Rightarrow> int option" where
  "gesture e =
     (if isTiltUp (pitchOf e) (sampleUp e) then Some 0
      else if isTiltDown (pitchOf e) (sampleDown e) then Some 1
      else if isTiltLeft (rollOf e) (sampleLeft e) then Some 2
      else if isTiltRight (rollOf e) (sampleRight e) then Some 3
      else None)"

subsection \<open>Invariant and reachable states\<close>

text \<open>What holds whenever a function of the engine is entered: the array has its declared
  size, the cursor stays inside the array, the level counter is between 1 and
  \<open>MAX_LEVEL + 1\<close> and has not passed \<open>MAX_LEVEL\<close> while a game is being played.\<close>

definition game_inv :: "sys \<Rightarrow> bool" where
  "game_inv s =
     (length (sequence s) = nat MAX_LEVEL \<and>
      0 \<le> currentMove s \<and> currentMove s < MAX_LEVEL \<and>
      1 \<le> currentLevel s \<and> currentLevel s \<le> MAX_LEVEL + 1 \<and>
      (gameOver s \<longrightarrow> gameStarted s) \<and>
      (gameStarted s \<and> \<not> gameOver s \<longrightarrow> currentLevel s \<le> MAX_LEVEL))"

text \<open>The sketch as a whole: \<^verbatim>\<open>setup()\<close>, then one pass through \<^verbatim>\<open>loop()\<close> for each
  environment of the list. \<open>None\<close> when \<^verbatim>\<open>setup()\<close> never returns.\<close>

definition sketch :: "hw \<Rightarrow> env list \<Rightarrow> sys option" where
  "sketch h es = map_option (run es) (setup_sketch h)"

inductive reachable :: "sys \<Rightarrow> bool" where
  boot: "setup_sketch h = Some s \<Longrightarrow> reachable s"
| pass: "reachable s \<Longrightarrow> reachable (loop e s)"

text \<open>Phase, level and cursor of a state.\<close>

definition observe :: "sys \<Rightarrow> GameState \<times> int \<times> int" where
  "observe s = (game_state s, currentLevel s, currentMove s)"

text \<open>The first block of \<^verbatim>\<open>loop()\<close>, the periodic bus recovery, on its own.\<close>

definition recover :: "sys \<Rightarrow> sys" where
  "recover s =
     (if millis s - lastRecovery s > 60000 then
        (let s = emit WireEnd s;
             s = emit (WireBegin I2C_SDA I2C_SCL) s;
             s = emit (WireSetClock I2C_SPEED) s
         in s\<lparr>lastRecovery := millis s\<rparr>)
      else s)"

text \<open>\<open>in_game xs lvl cur s\<close>: at the end of a pass of the loop a game with sequence \<open>xs\<close> is
  being played, at level \<open>lvl\<close> with the cursor at \<open>cur\<close>, and the last time stamp was taken
  50 ms ago (the delay that ends the pass).\<close>

definition in_game :: "int list \<Rightarrow> int \<Rightarrow> int \<Rightarrow> sys \<Rightarrow> bool" where
  "in_game xs lvl cur s =
     (sequence s = xs \<and> currentLevel s = lvl \<and> currentMove s = cur \<and>
      gameStarted s \<and> \<not> gameOver s \<and> millis s - lastInputTime s = 50)"

text \<open>The moves of a game of sequence \<open>xs\<close> played without a mistake: the first element, then
  the first two, and so on up to the first \<open>MAX_LEVEL\<close>.\<close>

definition perfect_moves :: "int list \<Rightarrow> int list" where
  "perfect_moves xs = concat (map (\<lambda>l. take l xs) [1..<Suc (nat MAX_LEVEL)])"

subsection \<open>The retry policy in the specification's words\<close>

text \<open>The number of failed attempts a bring-up routine makes when attempt \<open>i\<close> succeeds iff
  \<open>p i\<close>: it stops at the first success and gives up after five failures.\<close>

definition spec_failures :: "(nat \<Rightarrow> bool) \<Rightarrow> nat" where
  "spec_failures p =
     (if p 0 then 0 else if p 1 then 1 else if p 2 then 2 else if p 3 then 3
      else if p 4 then 4 else 5)"

text \<open>What the outside world sees of a routine that fails \<open>n\<close> times: each failed attempt
  followed by a delay of 100 ms, then the successful attempt if there is one.\<close>

definition spec_retries :: "event list \<Rightarrow> nat \<Rightarrow> event list" where
  "spec_retries attempt n =
     concat (replicate n (attempt @ [Delay 100])) @ (if n < 5 then attempt else [])"

definition i2c_attempt :: "event list" where
  "i2c_attempt = [WireBegin I2C_SDA I2C_SCL, WireSetClock I2C_SPEED,
     WireBeginTransmission MPU_ADDRESS, WireEndTransmission]"

definition mpu_attempt :: "event list" where
  "mpu_attempt = [MpuBegin MPU_ADDRESS]"

definition oled_attempt :: "event list" where
  "oled_attempt = [OledBegin OLED_ADDRESS]"

definition spec_retry_result :: "event list \<Rightarrow> (nat \<Rightarrow> bool) \<Rightarrow> sys \<Rightarrow> bool \<times> sys" where
  "spec_retry_result attempt p s =
     (spec_failures p < 5,
      s\<lparr>clock := clock s + 100 * of_nat (spec_failures p),
        trace := trace s @ spec_retries attempt (spec_failures p)\<rparr>)"

subsection \<open>Concrete inputs\<close>

text \<open>Five readings: the board lying flat, and tipped a quarter turn each way.\<close>

definition level_sample :: accel where "level_sample = \<lparr>ax = 0, ay = 0, az = 1\<rparr>"
definition up_sample :: accel where "up_sample = \<lparr>ax = 1, ay = 0, az = 0\<rparr>"
definition down_sample :: accel where "down_sample = \<lparr>ax = - 1, ay = 0, az = 0\<rparr>"
definition left_sample :: accel where "left_sample = \<lparr>ax = 0, ay = - 1, az = 0\<rparr>"
definition right_sample :: accel where "right_sample = \<lparr>ax = 0, ay = 1, az = 0\<rparr>"

text \<open>Two readings for which the target computes a pitch of exactly 25 and exactly -25:
  \<open>ax\<close> is the \<^verbatim>\<open>float\<close> \<^verbatim>\<open>-0x1.dd7fc2p-2\<close>, respectively \<^verbatim>\<open>0x1.dd7fc2p-2\<close>.\<close>

definition threshold_sample :: accel where
  "threshold_sample = \<lparr>ax = - (15646689 / 33554432), ay = 0, az = 1\<rparr>"

definition neg_threshold_sample :: accel where
  "neg_threshold_sample = \<lparr>ax = 15646689 / 33554432, ay = 0, az = 1\<rparr>"

text \<open>The angles that the target computes for the seven readings above; at any other
  reading these two functions are not meant to describe it.\<close>

definition target_pitch :: "accel \<Rightarrow> fval" where
  "target_pitch a =
     (if a = up_sample then Fin (- 90)
      else if a = down_sample then Fin 90
      else if a = threshold_sample then Fin 25
      else if a = neg_threshold_sample then Fin (- 25)
      else Fin 0)"

definition target_roll :: "accel \<Rightarrow> fval" where
  "target_roll a =
     (if a = left_sample then Fin (- 90)
      else if a = right_sample then Fin 90
      else Fin 0)"

text \<open>A pass of the loop during which the button and the board do not move. The raw random
  numbers are 0, 1, 2, ..., so a game started in such a pass plays the sequence
  Up, Down, Left, Right, Up, Down, Left, Right, Up, Down.\<close>

definition tick :: "bool \<Rightarrow> accel \<Rightarrow> env" where
  "tick pressed a = \<lparr>buttonLow1 = pressed, buttonLow2 = pressed, sampleUp = a, sampleDown = a,
     sampleLeft = a, sampleRight = a, pitchOf = target_pitch, rollOf = target_roll,
     rawRandom = (\<lambda>i. i)\<rparr>"

definition udlr :: "int list" where "udlr = [0, 1, 2, 3, 0, 1, 2, 3, 0, 1]"

text \<open>The player's actions, one per pass: pressing the button with the board flat, and
  tilting the board with the button released.\<close>

definition press :: env where "press = tick True level_sample"
definition tilt_up :: env where "tilt_up = tick False up_sample"
definition tilt_down :: env where "tilt_down = tick False down_sample"
definition tilt_left :: env where "tilt_left = tick False left_sample"
definition tilt_right :: env where "tilt_right = tick False right_sample"

text \<open>Hardware on which every bring-up attempt succeeds, and hardware on which the display,
  the bus, the sensor never answers.\<close>

definition all_ok :: hw where
  "all_ok = \<lparr>i2cAck = (\<lambda>i. True), mpuOk = (\<lambda>i. True), oledOk = (\<lambda>i. True)\<rparr>"

definition no_oled :: hw where
  "no_oled = \<lparr>i2cAck = (\<lambda>i. True), mpuOk = (\<lambda>i. True), oledOk = (\<lambda>i. False)\<rparr>"

definition no_bus :: hw where
  "no_bus = \<lparr>i2cAck = (\<lambda>i. False), mpuOk = (\<lambda>i. True), oledOk = (\<lambda>i. True)\<rparr>"

definition no_mpu :: hw where
  "no_mpu = \<lparr>i2cAck = (\<lambda>i. True), mpuOk = (\<lambda>i. False), oledOk = (\<lambda>i. True)\<rparr>"

text \<open>A state in the middle of level 1 of a game with the sequence above.\<close>

definition playing :: sys where
  "playing = \<lparr> sequence = [0, 1, 2, 3, 0, 1, 2, 3, 0, 1], currentLevel = 1,
     gameStarted = True, gameOver = False, lastInputTime = 5000, currentMove = 0,
     lastRecovery = 0, clock = 5100, trace = [] \<rparr>"

text \<open>The state in which \<^verbatim>\<open>setup()\<close> leaves the globals; the clock and the trace are
  parameters.\<close>

definition booted :: "time \<Rightarrow> event list \<Rightarrow> sys" where
  "booted clk t =
     \<lparr> sequence = replicate (nat MAX_LEVEL) 0, currentLevel = 1, gameStarted = False,
       gameOver = False, lastInputTime = 0, currentMove = 0, lastRecovery = 0,
       clock = clk, trace = t \<rparr>"

section \<open>Frame properties\<close>

text \<open>The loops are unfolded by hand, one iteration at a time.\<close>

declare playSequence_loop.simps [simp del] startGame_loop.simps [simp del]
  initializeI2C_loop.simps [simp del] initializeMPU_loop.simps [simp del]
  initializeOLED_loop.simps [simp del]

lemma emit_fields [simp]:
  "sequence (emit e s) = sequence s"
  "currentLevel (emit e s) = currentLevel s"
  "gameStarted (emit e s) = gameStarted s"
  "gameOver (emit e s) = gameOver s"
  "lastInputTime (emit e s) = lastInputTime s"
  "currentMove (emit e s) = currentMove s"
  "lastRecovery (emit e s) = lastRecovery s"
  "clock (emit e s) = clock s"
  "trace (emit e s) = trace s @ [e]"
  by (simp_all add: emit_def)

lemma delay_fields [simp]:
  "sequence (delay n s) = sequence s"
  "currentLevel (delay n s) = currentLevel s"
  "gameStarted (delay n s) = gameStarted s"
  "gameOver (delay n s) = gameOver s"
  "lastInputTime (delay n s) = lastInputTime s"
  "currentMove (delay n s) = currentMove s"
  "lastRecovery (delay n s) = lastRecovery s"
  "clock (delay n s) = clock s + n"
  "trace (delay n s) = trace s @ [Delay n]"
  by (simp_all add: delay_def)

lemma halt_None: "halt s = None"
proof -
  have "halt s = Some y \<Longrightarrow> False" for y
    by (erule halt.raw_induct [where P = "\<lambda>_ _. False", rotated]) blast
  then show ?thesis by (cases "halt s") auto
qed

lemma showStartScreen_fields [simp]:
  "sequence (showStartScreen s) = sequence s"
  "currentLevel (showStartScreen s) = currentLevel s"
  "gameStarted (showStartScreen s) = gameStarted s"
  "gameOver (showStartScreen s) = gameOver s"
  "lastInputTime (showStartScreen s) = lastInputTime s"
  "currentMove (showStartScreen s) = currentMove s"
  "lastRecovery (showStartScreen s) = lastRecovery s"
  "clock (showStartScreen s) = clock s"
  by (simp_all add: showStartScreen_def Let_def)

lemma showGameOverScreen_fields [simp]:
  "sequence (showGameOverScreen s) = sequence s"
  "currentLevel (showGameOverScreen s) = currentLevel s"
  "gameStarted (showGameOverScreen s) = gameStarted s"
  "gameOver (showGameOverScreen s) = gameOver s"
  "lastInputTime (showGameOverScreen s) = lastInputTime s"
  "currentMove (showGameOverScreen s) = currentMove s"
  "lastRecovery (showGameOverScreen s) = lastRecovery s"
  "clock (showGameOverScreen s) = clock s"
  by (simp_all add: showGameOverScreen_def Let_def)

lemma UpArrow_fields [simp]:
  "sequence (UpArrow s) = sequence s"
  "currentLevel (UpArrow s) = currentLevel s"
  "gameStarted (UpArrow s) = gameStarted s"
  "gameOver (UpArrow s) = gameOver s"
  "lastInputTime (UpArrow s) = lastInputTime s"
  "currentMove (UpArrow s) = currentMove s"
  "lastRecovery (UpArrow s) = lastRecovery s"
  "clock (UpArrow s) = clock s"
  by (simp_all add: UpArrow_def Let_def)

lemma showArrow_fields [simp]:
  "sequence (showArrow d s) = sequence s"
  "currentLevel (showArrow d s) = currentLevel s"
  "gameStarted (showArrow d s) = gameStarted s"
  "gameOver (showArrow d s) = gameOver s"
  "lastInputTime (showArrow d s) = lastInputTime s"
  "currentMove (showArrow d s) = currentMove s"
  "lastRecovery (showArrow d s) = lastRecovery s"
  "clock (showArrow d s) = clock s"
  by (simp_all add: showArrow_def UpArrow_def DownArrow_def LeftArrow_def RightArrow_def Let_def)

lemma playSequence_loop_fields [simp]:
  "sequence (playSequence_loop i s) = sequence s"
  "currentLevel (playSequence_loop i s) = currentLevel s"
  "gameStarted (playSequence_loop i s) = gameStarted s"
  "gameOver (playSequence_loop i s) = gameOver s"
  "lastInputTime (playSequence_loop i s) = lastInputTime s"
  "currentMove (playSequence_loop i s) = currentMove s"
  "lastRecovery (playSequence_loop i s) = lastRecovery s"
  by (induction i s rule: playSequence_loop.induct;
      subst playSequence_loop.simps; simp add: Let_def)+

lemma playSequence_fields [simp]:
  "sequence (playSequence s) = sequence s"
  "currentLevel (playSequence s) = currentLevel s"
  "gameStarted (playSequence s) = gameStarted s"
  "gameOver (playSequence s) = gameOver s"
  "currentMove (playSequence s) = currentMove s"
  "lastRecovery (playSequence s) = lastRecovery s"
  "lastInputTime (playSequence s) = clock (playSequence s)"
  by (simp_all add: playSequence_def Let_def millis_def)

lemma handlePlayerMove_sequence [simp]:
  "sequence (handlePlayerMove m s) = sequence s"
  by (simp add: handlePlayerMove_def Let_def)

lemma checkPlayerInput_sequence [simp]:
  "sequence (checkPlayerInput e s) = sequence s"
  by (simp add: checkPlayerInput_def Let_def)

lemma resetGame_sequence [simp]: "sequence (resetGame s) = sequence s"
  by (simp add: resetGame_def Let_def)

subsection \<open>Sequence generation\<close>

lemma startGame_loop_fields [simp]:
  "currentLevel (startGame_loop e i s) = currentLevel s"
  "gameStarted (startGame_loop e i s) = gameStarted s"
  "gameOver (startGame_loop e i s) = gameOver s"
  "lastInputTime (startGame_loop e i s) = lastInputTime s"
  "currentMove (startGame_loop e i s) = currentMove s"
  "lastRecovery (startGame_loop e i s) = lastRecovery s"
  "clock (startGame_loop e i s) = clock s"
  "trace (startGame_loop e i s) = trace s"
  "length (sequence (startGame_loop e i s)) = length (sequence s)"
  by (induction e i s rule: startGame_loop.induct; subst startGame_loop.simps; simp)+

lemma startGame_loop_sequence:
  "length (sequence s) = nat MAX_LEVEL \<Longrightarrow> 0 \<le> i \<Longrightarrow> i \<le> MAX_LEVEL \<Longrightarrow>
   sequence (startGame_loop e i s) =
     take (nat i) (sequence s) @ map (\<lambda>k. random_max 4 (rawRandom e k)) [nat i..<nat MAX_LEVEL]"
proof (induction e i s rule: startGame_loop.induct)
  case (1 e i s)
  show ?case
  proof (cases "i < MAX_LEVEL")
    case False
    with "1.prems" have "i = MAX_LEVEL" by simp
    with "1.prems" show ?thesis
      by (subst startGame_loop.simps) simp
  next
    case True
    let ?v = "random_max 4 (rawRandom e (nat i))"
    let ?s = "s\<lparr>sequence := (sequence s)[nat i := ?v]\<rparr>"
    have lt: "nat i < length (sequence s)"
      using True "1.prems" by simp
    have "sequence (startGame_loop e (i + 1) ?s) =
            take (nat (i + 1)) (sequence ?s) @
            map (\<lambda>k. random_max 4 (rawRandom e k)) [nat (i + 1)..<nat MAX_LEVEL]"
      using True "1.prems" by (intro "1.IH") simp_all
    moreover have "nat (i + 1) = Suc (nat i)"
      using "1.prems" by simp
    moreover have "take (Suc (nat i)) ((sequence s)[nat i := ?v]) = take (nat i) (sequence s) @ [?v]"
      using lt by (simp add: take_Suc_conv_app_nth)
    moreover have "[nat i..<nat MAX_LEVEL] = nat i # [Suc (nat i)..<nat MAX_LEVEL]"
      using True "1.prems" by (simp add: upt_conv_Cons)
    ultimately show ?thesis
      using True by (subst startGame_loop.simps) simp
  qed
qed

lemma startGame_generate_sequence:
  "length (sequence s) = nat MAX_LEVEL \<Longrightarrow>
   sequence (startGame_generate e s) = map (\<lambda>k. random_max 4 (rawRandom e k)) [0..<nat MAX_LEVEL]"
  by (simp add: startGame_generate_def Let_def startGame_loop_sequence MAX_LEVEL_def)

lemma random_max_4: "random_max 4 r \<in> {0, 1, 2, 3}"
proof -
  have "r mod 4 < 4" by simp
  then have "r mod 4 = 0 \<or> r mod 4 = 1 \<or> r mod 4 = 2 \<or> r mod 4 = 3" by arith
  then show ?thesis by (auto simp: random_max_def)
qed

subsection \<open>Concrete inputs, evaluated\<close>

lemma samples [simp]:
  "isTiltUp target_pitch level_sample = False" "isTiltDown target_pitch level_sample = False"
  "isTiltLeft target_roll level_sample = False" "isTiltRight target_roll level_sample = False"
  "isTiltUp target_pitch up_sample = True"
  "isTiltUp target_pitch down_sample = False" "isTiltDown target_pitch down_sample = True"
  "isTiltUp target_pitch left_sample = False" "isTiltDown target_pitch left_sample = False"
  "isTiltLeft target_roll left_sample = True"
  "isTiltUp target_pitch right_sample = False" "isTiltDown target_pitch right_sample = False"
  "isTiltLeft target_roll right_sample = False" "isTiltRight target_roll right_sample = True"
  by (simp_all add: isTiltUp_def isTiltDown_def isTiltLeft_def isTiltRight_def target_pitch_def
      target_roll_def fval_of_int_def level_sample_def up_sample_def down_sample_def
      left_sample_def right_sample_def threshold_sample_def neg_threshold_sample_def
      PITCH_THRESHOLD_def ROLL_THRESHOLD_def)

lemma tick_fields [simp]:
  "buttonLow1 (tick b a) = b" "buttonLow2 (tick b a) = b"
  "sampleUp (tick b a) = a" "sampleDown (tick b a) = a"
  "sampleLeft (tick b a) = a" "sampleRight (tick b a) = a"
  "pitchOf (tick b a) = target_pitch" "rollOf (tick b a) = target_roll"
  "rawRandom (tick b a) = (\<lambda>i. i)"
  by (simp_all add: tick_def)

lemma upt_10: "[0..<10] = [0, 1, 2, 3, 4, 5, 6, 7, 8, 9 :: nat]"
  by (simp add: upt_conv_Cons)

lemma startGame_generate_fields [simp]:
  "currentLevel (startGame_generate e s) = 1"
  "gameStarted (startGame_generate e s) = True"
  "gameOver (startGame_generate e s) = False"
  "lastInputTime (startGame_generate e s) = lastInputTime s"
  "currentMove (startGame_generate e s) = currentMove s"
  "lastRecovery (startGame_generate e s) = lastRecovery s"
  "clock (startGame_generate e s) = clock s"
  "trace (startGame_generate e s) = trace s @ [RandomSeed]"
  "length (sequence (startGame_generate e s)) = length (sequence s)"
  by (simp_all add: startGame_generate_def Let_def)

section \<open>Sequence generation at game start\<close>

text \<open>
  Claim C6. Every sequence generated at game start has length exactly \<open>MAX_LEVEL\<close>, every
  element is one of the four directions 0 (Up), 1 (Down), 2 (Left), 3 (Right), and all
  \<open>MAX_LEVEL\<close> elements are generated before playback begins: \<^verbatim>\<open>startGame\<close> is
  \<^verbatim>\<open>playSequence\<close> applied to a state that already holds the whole sequence and has
  sent nothing to the display.
\<close>

theorem startGame_sequence:
  assumes "length (sequence s) = nat MAX_LEVEL"
  shows "length (sequence (startGame e s)) = nat MAX_LEVEL
       \<and> (\<forall>d \<in> set (sequence (startGame e s)). d \<in> {0, 1, 2, 3})
       \<and> sequence (startGame e s) = map (\<lambda>k. random_max 4 (rawRandom e k)) [0..<nat MAX_LEVEL]
       \<and> startGame e s = playSequence (startGame_generate e s)
       \<and> sequence (startGame_generate e s) = sequence (startGame e s)
       \<and> trace (startGame_generate e s) = trace s @ [RandomSeed]"
proof -
  have gen: "sequence (startGame_generate e s) =
      map (\<lambda>k. random_max 4 (rawRandom e k)) [0..<nat MAX_LEVEL]"
    using assms by (rule startGame_generate_sequence)
  have same: "sequence (startGame e s) = sequence (startGame_generate e s)"
    by (simp add: startGame_def)
  have "\<forall>d \<in> set (sequence (startGame e s)). d \<in> {0, 1, 2, 3}"
    unfolding same gen using random_max_4 by auto
  moreover have "length (sequence (startGame e s)) = nat MAX_LEVEL"
    unfolding same gen by simp
  ultimately show ?thesis
    using gen same by (simp add: startGame_def)
qed

theorem startGame_sequence_witness:
  "length (sequence power_on) = nat MAX_LEVEL
   \<and> sequence (startGame (tick True level_sample) power_on) = [0, 1, 2, 3, 0, 1, 2, 3, 0, 1]"
proof -
  have len: "length (sequence power_on) = nat MAX_LEVEL"
    by (simp add: power_on_def)
  from startGame_sequence [OF len, of "tick True level_sample"]
  have "sequence (startGame (tick True level_sample) power_on) =
      map (\<lambda>k. random_max 4 (rawRandom (tick True level_sample) k)) [0..<nat MAX_LEVEL]"
    by blast
  then show ?thesis
    using len by (simp add: MAX_LEVEL_def random_max_def upt_10)
qed

section \<open>The sequence is written by \<^verbatim>\<open>startGame\<close> only\<close>

text \<open>
  Claim C9. Playback, input handling (with level advance, win and loss), the reset to idle,
  the screens and the delays leave every element of the sequence unchanged, and so does a
  whole pass of the loop unless it starts a new game (the game is not started and the button
  is down at the first test).
\<close>

theorem sequence_frame:
  "sequence (playSequence s) = sequence s
   \<and> sequence (handlePlayerMove m s) = sequence s
   \<and> sequence (checkPlayerInput e s) = sequence s
   \<and> sequence (resetGame s) = sequence s
   \<and> sequence (showStartScreen s) = sequence s
   \<and> sequence (showGameOverScreen s) = sequence s
   \<and> sequence (showArrow d s) = sequence s
   \<and> sequence (delay n s) = sequence s
   \<and> (\<not> (\<not> gameStarted s \<and> buttonLow1 e) \<longrightarrow> sequence (loop e s) = sequence s)"
  by (simp add: loop_def Let_def)

theorem sequence_frame_witness:
  "\<not> (\<not> gameStarted playing \<and> buttonLow1 (tick True up_sample))
   \<and> sequence (loop (tick True up_sample) playing) = [0, 1, 2, 3, 0, 1, 2, 3, 0, 1]"
  using sequence_frame [of playing 0 "tick True up_sample" 0 0]
  by (simp add: playing_def)

section \<open>Feedback glyph\<close>

lemma UpArrow_trace:
  "trace (UpArrow s) = trace s @ [ClearDisplay, FillRect 60 32 8 16 WHITE,
      FillTriangle 64 16 54 32 74 32 WHITE, Display]"
  by (simp add: UpArrow_def Let_def)

lemma emit_grows: "prefix xs (trace s) \<Longrightarrow> prefix xs (trace (emit e s))"
  by simp

lemma delay_grows: "prefix xs (trace s) \<Longrightarrow> prefix xs (trace (delay n s))"
  by simp

lemma showGameOverScreen_grows:
  "prefix xs (trace s) \<Longrightarrow> prefix xs (trace (showGameOverScreen s))"
  by (simp add: showGameOverScreen_def Let_def)

lemma showArrow_grows:
  "prefix xs (trace s) \<Longrightarrow> prefix xs (trace (showArrow d s))"
  by (simp add: showArrow_def UpArrow_def DownArrow_def LeftArrow_def RightArrow_def Let_def)

lemma playSequence_loop_grows:
  "prefix xs (trace s) \<Longrightarrow> prefix xs (trace (playSequence_loop i s))"
proof (induction i s rule: playSequence_loop.induct)
  case (1 i s)
  show ?case
  proof (cases "i < currentLevel s")
    case False
    then show ?thesis using "1.prems" by (subst playSequence_loop.simps) simp
  next
    case True
    let ?s = "delay 300 (emit Display (emit ClearDisplay (delay MOVE_DELAY
        (showArrow (sequence s ! nat i) s))))"
    have "prefix xs (trace ?s)"
      using showArrow_grows [OF "1.prems", of "sequence s ! nat i"] by simp
    then have "prefix xs (trace (playSequence_loop (i + 1) ?s))"
      by (rule "1.IH" [OF True refl refl refl refl refl])
    then show ?thesis
      using True by (subst playSequence_loop.simps) (simp add: Let_def)
  qed
qed

lemma playSequence_grows:
  assumes "prefix xs (trace s)"
  shows "prefix xs (trace (playSequence s))"
proof -
  let ?s = "delay 1000 (emit Display (emit (PrintlnInt (currentLevel s)) (emit (Print ''Level '')
     (emit (SetCursor 0 0) (emit (SetTextColor WHITE) (emit (SetTextSize 1) (emit ClearDisplay s)))))))"
  have "prefix xs (trace ?s)"
    using assms by simp
  then have "prefix xs (trace (playSequence_loop 0 ?s))"
    by (rule playSequence_loop_grows)
  then show ?thesis
    by (simp add: playSequence_def Let_def)
qed

lemma handlePlayerMove_feedback:
  "prefix (trace (emit Display (emit ClearDisplay (delay 300 (UpArrow s)))))
     (trace (handlePlayerMove m s))"
  unfolding handlePlayerMove_def Let_def
  by (auto intro!: playSequence_grows showGameOverScreen_grows emit_grows delay_grows)

text \<open>
  Claim C10. Whatever the move and whether or not it matches the expected element, the first
  thing \<^verbatim>\<open>handlePlayerMove\<close> renders is the Up arrow glyph, held for 300 ms and then
  cleared.
\<close>

theorem feedback_is_UpArrow:
  "(\<exists>rest. trace (handlePlayerMove m s) =
      trace (UpArrow s) @ [Delay 300, ClearDisplay, Display] @ rest)
   \<and> trace (UpArrow s) = trace s @ [ClearDisplay, FillRect 60 32 8 16 WHITE,
        FillTriangle 64 16 54 32 74 32 WHITE, Display]"
  using handlePlayerMove_feedback [of s m]
  by (auto simp: prefix_def UpArrow_trace)

section \<open>The engine's invariant\<close>

lemma resetGame_fields [simp]:
  "currentLevel (resetGame s) = currentLevel s"
  "gameStarted (resetGame s) = False"
  "gameOver (resetGame s) = False"
  "lastInputTime (resetGame s) = lastInputTime s"
  "currentMove (resetGame s) = currentMove s"
  "lastRecovery (resetGame s) = lastRecovery s"
  "clock (resetGame s) = clock s"
  by (simp_all add: resetGame_def Let_def)

lemma startGame_fields [simp]:
  "currentLevel (startGame e s) = 1"
  "gameStarted (startGame e s) = True"
  "gameOver (startGame e s) = False"
  "currentMove (startGame e s) = currentMove s"
  "lastRecovery (startGame e s) = lastRecovery s"
  "length (sequence (startGame e s)) = length (sequence s)"
  by (simp_all add: startGame_def)

lemma game_inv_startGame: "game_inv s \<Longrightarrow> game_inv (startGame e s)"
  by (simp add: game_inv_def MAX_LEVEL_def)

lemma game_inv_resetGame: "game_inv s \<Longrightarrow> game_inv (resetGame s)"
  by (simp add: game_inv_def)

lemma game_inv_delay: "game_inv (delay n s) = game_inv s"
  by (simp add: game_inv_def)

lemma game_inv_emit: "game_inv (emit e s) = game_inv s"
  by (simp add: game_inv_def)

lemma game_inv_handlePlayerMove:
  "game_inv s \<Longrightarrow> gameStarted s \<Longrightarrow> \<not> gameOver s \<Longrightarrow> game_inv (handlePlayerMove m s)"
  by (auto simp: game_inv_def handlePlayerMove_def Let_def)

lemma game_inv_checkPlayerInput:
  "game_inv s \<Longrightarrow> gameStarted s \<Longrightarrow> \<not> gameOver s \<Longrightarrow> game_inv (checkPlayerInput e s)"
  by (auto simp: checkPlayerInput_def Let_def game_inv_handlePlayerMove)
     (auto simp: game_inv_def)

lemma game_inv_loop: "game_inv s \<Longrightarrow> game_inv (loop e s)"
  unfolding loop_def Let_def
  by (auto simp: game_inv_delay game_inv_emit 
      intro!: game_inv_resetGame game_inv_checkPlayerInput game_inv_startGame)
    (auto simp: game_inv_def millis_def)

lemma game_inv_power_on: "game_inv power_on"
  by (simp add: game_inv_def power_on_def MAX_LEVEL_def)

lemma game_inv_showStartScreen: "game_inv (showStartScreen s) = game_inv s"
  by (simp add: game_inv_def)

lemma game_inv_initializeI2C_loop: "game_inv (snd (initializeI2C_loop h i s)) = game_inv s"
  by (induction h i s rule: initializeI2C_loop.induct; subst initializeI2C_loop.simps)
     (simp add: Let_def game_inv_emit game_inv_delay)

lemma game_inv_initializeMPU_loop: "game_inv (snd (initializeMPU_loop h i s)) = game_inv s"
  by (induction h i s rule: initializeMPU_loop.induct; subst initializeMPU_loop.simps)
     (simp add: Let_def game_inv_emit game_inv_delay)

lemma game_inv_initializeOLED_loop: "game_inv (snd (initializeOLED_loop h i s)) = game_inv s"
  by (induction h i s rule: initializeOLED_loop.induct; subst initializeOLED_loop.simps)
     (simp add: Let_def game_inv_emit game_inv_delay)

lemma game_state_emit: "game_state (emit e s) = game_state s"
  by (simp add: game_state_def)

lemma game_state_delay: "game_state (delay n s) = game_state s"
  by (simp add: game_state_def)

lemma game_state_initializeI2C_loop:
  "game_state (snd (initializeI2C_loop h i s)) = game_state s"
  by (induction h i s rule: initializeI2C_loop.induct; subst initializeI2C_loop.simps)
     (simp add: Let_def game_state_emit game_state_delay)

lemma game_state_initializeMPU_loop:
  "game_state (snd (initializeMPU_loop h i s)) = game_state s"
  by (induction h i s rule: initializeMPU_loop.induct; subst initializeMPU_loop.simps)
     (simp add: Let_def game_state_emit game_state_delay)

lemma game_state_initializeOLED_loop:
  "game_state (snd (initializeOLED_loop h i s)) = game_state s"
  by (induction h i s rule: initializeOLED_loop.induct; subst initializeOLED_loop.simps)
     (simp add: Let_def game_state_emit game_state_delay)

lemma game_state_showStartScreen: "game_state (showStartScreen s) = game_state s"
  by (simp add: game_state_def)

lemma setup_sketch_Some:
  assumes "setup_sketch h = Some s"
  shows "game_inv s \<and> game_state s = Idle"
proof -
  let ?s0 = "emit (PinModePullup BUTTON_PIN) (delay 2000 (emit (SerialBegin 115200) power_on))"
  let ?s1 = "snd (initializeI2C h ?s0)"
  let ?s2 = "snd (initializeMPU h ?s1)"
  let ?s3 = "snd (initializeOLED h ?s2)"
  have "game_state power_on = Idle"
    by (simp add: game_state_def power_on_def)
  then have 0: "game_inv ?s0 \<and> game_state ?s0 = Idle"
    by (simp add: game_inv_emit game_inv_delay game_inv_power_on game_state_emit game_state_delay)
  then have 3: "game_inv ?s3 \<and> game_state ?s3 = Idle"
    by (simp add: initializeI2C_def initializeMPU_def initializeOLED_def
        game_inv_initializeI2C_loop game_inv_initializeMPU_loop game_inv_initializeOLED_loop
        game_state_initializeI2C_loop game_state_initializeMPU_loop game_state_initializeOLED_loop)
  have "\<exists>es. s = showStartScreen (fold emit es ?s3)"
    using assms
    apply (simp add: setup_sketch_def Let_def halt_None split_beta split: if_splits)
     apply (rule exI [of _ "[SerialPrintln ''OLED initialization failed - continuing without display'', MpuSetAccelerometerRange, MpuSetGyroRange, MpuSetFilterBandwidth]"])
     apply simp
     apply (rule exI [of _ "[MpuSetAccelerometerRange, MpuSetGyroRange, MpuSetFilterBandwidth]"])
    apply simp
    done
  then obtain es where s: "s = showStartScreen (fold emit es ?s3)" by blast
  have f: "game_inv (fold emit es t) = game_inv t \<and> game_state (fold emit es t) = game_state t" for t
    by (induction es arbitrary: t) (simp_all add: game_inv_emit game_state_emit)
  show ?thesis
    using 3 unfolding s by (simp add: game_inv_showStartScreen game_state_showStartScreen f)
qed

lemma reachable_game_inv: "reachable s \<Longrightarrow> game_inv s"
  by (induction rule: reachable.induct) (simp_all add: setup_sketch_Some game_inv_loop)

section \<open>Timeout\<close>

text \<open>
  Claim C5. In a call of \<^verbatim>\<open>checkPlayerInput\<close> while input is awaited, the timeout test
  comes before any tilt query: once \<open>millis() - lastInputTime\<close> exceeds \<open>INPUT_TIMEOUT\<close> the
  game is lost, and the outcome is the same whatever the sensor would have delivered; the
  cursor, the level and the time stamp are as before.
\<close>

theorem timeout_checked_first:
  assumes "game_inv s" and "game_state s = AwaitingInput"
    and "millis s - lastInputTime s > INPUT_TIMEOUT"
  shows "checkPlayerInput e s = showGameOverScreen (s\<lparr>gameOver := True\<rparr>)
       \<and> game_state (checkPlayerInput e s) = Lost
       \<and> currentMove (checkPlayerInput e s) = currentMove s
       \<and> currentLevel (checkPlayerInput e s) = currentLevel s
       \<and> lastInputTime (checkPlayerInput e s) = lastInputTime s"
  using assms
  by (simp add: checkPlayerInput_def Let_def game_state_def game_inv_def split: if_splits)

theorem timeout_checked_first_witness:
  "game_inv (playing\<lparr>clock := 9000\<rparr>) \<and> game_state (playing\<lparr>clock := 9000\<rparr>) = AwaitingInput
   \<and> millis (playing\<lparr>clock := 9000\<rparr>) - lastInputTime (playing\<lparr>clock := 9000\<rparr>) > INPUT_TIMEOUT
   \<and> observe (checkPlayerInput (tick False up_sample) (playing\<lparr>clock := 9000\<rparr>)) = (Lost, 1, 0)"
proof -
  let ?s = "playing\<lparr>clock := 9000\<rparr>"
  have a: "game_inv ?s"
    by (simp add: game_inv_def playing_def MAX_LEVEL_def)
  have b: "game_state ?s = AwaitingInput"
    by (simp add: game_state_def playing_def)
  have c: "millis ?s - lastInputTime ?s > INPUT_TIMEOUT"
    by (simp add: millis_def playing_def INPUT_TIMEOUT_def)
  from timeout_checked_first [OF a b c, of "tick False up_sample"]
  have "game_state (checkPlayerInput (tick False up_sample) ?s) = Lost
      \<and> currentMove (checkPlayerInput (tick False up_sample) ?s) = currentMove ?s
      \<and> currentLevel (checkPlayerInput (tick False up_sample) ?s) = currentLevel ?s"
    by blast
  then show ?thesis
    using a b c by (simp add: observe_def playing_def)
qed

section \<open>Losing a game\<close>

lemma game_state_AwaitingInput: "game_state s = AwaitingInput \<longleftrightarrow> gameStarted s \<and> \<not> gameOver s"
  by (simp add: game_state_def)

lemma game_state_Lost:
  "game_state s = Lost \<longleftrightarrow> gameStarted s \<and> gameOver s \<and> currentLevel s \<le> MAX_LEVEL"
  by (auto simp: game_state_def)

lemma checkPlayerInput_gesture:
  "checkPlayerInput e s =
     (if millis s - lastInputTime s > INPUT_TIMEOUT then showGameOverScreen (s\<lparr>gameOver := True\<rparr>)
      else case gesture e of None \<Rightarrow> s | Some g \<Rightarrow> handlePlayerMove g s)"
  by (simp add: checkPlayerInput_def gesture_def Let_def)

lemma handlePlayerMove_wrong:
  assumes "m \<noteq> sequence s ! nat (currentMove s)"
  shows "handlePlayerMove m s =
     showGameOverScreen (emit Display (emit ClearDisplay (delay 300 (UpArrow s)))\<lparr>gameOver := True\<rparr>)"
  using assms by (simp add: handlePlayerMove_def Let_def)

lemma handlePlayerMove_right:
  assumes "m = sequence s ! nat (currentMove s)" and "game_inv s" and "game_state s = AwaitingInput"
  shows "game_state (handlePlayerMove m s) \<noteq> Lost"
    and "game_state (handlePlayerMove m s) = AwaitingInput \<longrightarrow>
         lastInputTime (handlePlayerMove m s) = millis (handlePlayerMove m s)"
  using assms
  by (auto simp: handlePlayerMove_def Let_def game_state_def game_inv_def millis_def
      split: if_splits)

text \<open>
  What \<^verbatim>\<open>checkPlayerInput\<close> does with the index it keeps in the static \<^verbatim>\<open>currentMove\<close>:
  while input is awaited it ends in the lost state if and only if the time since
  \<open>lastInputTime\<close> exceeds \<open>INPUT_TIMEOUT\<close> or a gesture is classified that differs from
  \<open>sequence[currentMove]\<close>. Without a gesture nothing changes; after an accepted one, if
  input is still awaited, \<open>lastInputTime\<close> is the current time. Whether \<open>currentMove\<close> is
  the position of the player within the level is another matter: see the last section.
\<close>

lemma checkPlayerInput_Lost:
  assumes "game_inv s" and "game_state s = AwaitingInput"
  shows "(game_state (checkPlayerInput e s) = Lost \<longleftrightarrow>
            millis s - lastInputTime s > INPUT_TIMEOUT
            \<or> (\<exists>g. gesture e = Some g \<and> g \<noteq> sequence s ! nat (currentMove s)))
       \<and> (\<not> millis s - lastInputTime s > INPUT_TIMEOUT \<and> gesture e = None \<longrightarrow>
            checkPlayerInput e s = s)
       \<and> (\<not> millis s - lastInputTime s > INPUT_TIMEOUT
            \<and> gesture e = Some (sequence s ! nat (currentMove s))
            \<and> game_state (checkPlayerInput e s) = AwaitingInput \<longrightarrow>
            lastInputTime (checkPlayerInput e s) = millis (checkPlayerInput e s))"
proof (cases "millis s - lastInputTime s > INPUT_TIMEOUT")
  case True
  then show ?thesis
    using assms by (simp add: checkPlayerInput_gesture game_state_AwaitingInput game_state_Lost game_inv_def)
next
  case False
  show ?thesis
  proof (cases "gesture e")
    case None
    then show ?thesis
      using False assms by (simp add: checkPlayerInput_gesture)
  next
    case (Some g)
    show ?thesis
    proof (cases "g = sequence s ! nat (currentMove s)")
      case True
      then show ?thesis
        using False Some handlePlayerMove_right [OF True assms]
        by (simp add: checkPlayerInput_gesture)
    next
      case wrong: False
      have "game_state (handlePlayerMove g s) = Lost"
        using assms by (simp add: handlePlayerMove_wrong [OF wrong] game_state_AwaitingInput game_state_Lost game_inv_def)
      then show ?thesis
        using False Some wrong by (simp add: checkPlayerInput_gesture)
    qed
  qed
qed

lemma gesture_tick [simp]:
  "gesture (tick b level_sample) = None"
  "gesture (tick b up_sample) = Some 0"
  "gesture (tick b down_sample) = Some 1"
  "gesture (tick b left_sample) = Some 2"
  "gesture (tick b right_sample) = Some 3"
  by (simp_all add: gesture_def)

section \<open>Tilt thresholds\<close>

text \<open>
  Claim C7. A reading whose computed pitch is exactly \<open>PITCH_THRESHOLD\<close>, or exactly
  \<open>- PITCH_THRESHOLD\<close>, is classified neither as Up nor as Down: both comparisons are strict.
  The computed pitch is the value the target stores in \<^verbatim>\<open>pitch\<close>, whatever its
  floating-point arithmetic is.
\<close>

theorem pitch_threshold_strict:
  assumes "compute a = fval_of_int PITCH_THRESHOLD \<or> compute a = fval_of_int (- PITCH_THRESHOLD)"
  shows "\<not> isTiltUp compute a \<and> \<not> isTiltDown compute a"
  using assms
  by (auto simp: isTiltUp_def isTiltDown_def fval_of_int_def PITCH_THRESHOLD_def)

theorem pitch_threshold_strict_witness:
  "target_pitch threshold_sample = fval_of_int PITCH_THRESHOLD
   \<and> \<not> isTiltUp target_pitch threshold_sample \<and> \<not> isTiltDown target_pitch threshold_sample
   \<and> target_pitch neg_threshold_sample = fval_of_int (- PITCH_THRESHOLD)
   \<and> \<not> isTiltUp target_pitch neg_threshold_sample
   \<and> \<not> isTiltDown target_pitch neg_threshold_sample"
proof -
  have p: "target_pitch threshold_sample = fval_of_int PITCH_THRESHOLD"
    by (simp add: target_pitch_def threshold_sample_def up_sample_def down_sample_def
        fval_of_int_def PITCH_THRESHOLD_def)
  have n: "target_pitch neg_threshold_sample = fval_of_int (- PITCH_THRESHOLD)"
    by (simp add: target_pitch_def neg_threshold_sample_def threshold_sample_def up_sample_def
        down_sample_def fval_of_int_def PITCH_THRESHOLD_def)
  from pitch_threshold_strict [of target_pitch threshold_sample]
    pitch_threshold_strict [of target_pitch neg_threshold_sample] p n
  show ?thesis
    by blast
qed

section \<open>Bring-up with retries\<close>

lemma spec_failures_le: "spec_failures p \<le> 5"
  by (simp add: spec_failures_def)

lemma spec_failures_exhausted: "spec_failures p = 5 \<longleftrightarrow> (\<forall>i<5. \<not> p i)"
proof -
  have "(\<forall>i<5. \<not> p i) \<longleftrightarrow> \<not> p 0 \<and> \<not> p 1 \<and> \<not> p 2 \<and> \<not> p 3 \<and> \<not> p 4"
  proof -
    have "i < 5 \<longleftrightarrow> i = 0 \<or> i = 1 \<or> i = 2 \<or> i = 3 \<or> i = 4" for i :: nat
      by arith
    then show ?thesis by auto
  qed
  then show ?thesis
    by (simp add: spec_failures_def)
qed

lemma initializeI2C_spec: "initializeI2C h s = spec_retry_result i2c_attempt (i2cAck h) s"
  by (simp add: initializeI2C_def initializeI2C_loop.simps Let_def spec_retry_result_def
      spec_failures_def spec_retries_def i2c_attempt_def emit_def delay_def
      eval_nat_numeral add.commute)

lemma initializeMPU_spec: "initializeMPU h s = spec_retry_result mpu_attempt (mpuOk h) s"
  by (simp add: initializeMPU_def initializeMPU_loop.simps Let_def spec_retry_result_def
      spec_failures_def spec_retries_def mpu_attempt_def emit_def delay_def
      eval_nat_numeral add.commute)

lemma initializeOLED_spec: "initializeOLED h s = spec_retry_result oled_attempt (oledOk h) s"
  by (simp add: initializeOLED_def initializeOLED_loop.simps Let_def spec_retry_result_def
      spec_failures_def spec_retries_def oled_attempt_def emit_def delay_def
      eval_nat_numeral add.commute)

lemma setup_sketch_None:
  "setup_sketch h = None \<longleftrightarrow> spec_failures (i2cAck h) = 5 \<or> spec_failures (mpuOk h) = 5"
  using spec_failures_le [of "i2cAck h"] spec_failures_le [of "mpuOk h"]
  by (auto simp: setup_sketch_def Let_def halt_None initializeI2C_spec initializeMPU_spec
      initializeOLED_spec spec_retry_result_def)

text \<open>
  Claim C8. Each of the three bring-up routines makes at most five attempts, stops at the
  first that succeeds and waits 100 ms after every failed one; it reports failure exactly when
  all five attempts fail. \<^verbatim>\<open>setup()\<close> never returns, so the game never starts, exactly when
  the bus or the sensor fails five times; the outcome for the display does not matter, and
  when \<^verbatim>\<open>setup()\<close> returns the game is idle.
\<close>

theorem bring_up_retries:
  "initializeI2C h s = spec_retry_result i2c_attempt (i2cAck h) s
   \<and> initializeMPU h s = spec_retry_result mpu_attempt (mpuOk h) s
   \<and> initializeOLED h s = spec_retry_result oled_attempt (oledOk h) s
   \<and> spec_failures p \<le> 5
   \<and> (spec_failures p = 5 \<longleftrightarrow> (\<forall>i<5. \<not> p i))
   \<and> (setup_sketch h = None \<longleftrightarrow> (\<forall>i<5. \<not> i2cAck h i) \<or> (\<forall>i<5. \<not> mpuOk h i))
   \<and> (\<forall>s'. setup_sketch h = Some s' \<longrightarrow> game_state s' = Idle)"
  using setup_sketch_Some [of h]
  by (simp add: initializeI2C_spec initializeMPU_spec initializeOLED_spec spec_failures_le
      spec_failures_exhausted setup_sketch_None)

theorem bring_up_retries_witness:
  "map_option game_state (setup_sketch no_oled) = Some Idle
   \<and> spec_failures (oledOk no_oled) = 5
   \<and> setup_sketch no_bus = None
   \<and> setup_sketch no_mpu = None
   \<and> fst (initializeOLED no_oled power_on) = False
   \<and> trace (snd (initializeOLED no_oled power_on)) =
       [OledBegin OLED_ADDRESS, Delay 100, OledBegin OLED_ADDRESS, Delay 100,
        OledBegin OLED_ADDRESS, Delay 100, OledBegin OLED_ADDRESS, Delay 100,
        OledBegin OLED_ADDRESS, Delay 100]"
proof -
  note w = bring_up_retries [of no_oled power_on "oledOk no_oled"]
  have ex: "\<exists>i::nat. i < 5"
    by (rule exI [of _ 0]) simp
  have a: "setup_sketch no_oled \<noteq> None"
    using w ex by (simp add: no_oled_def)
  then obtain s' where s': "setup_sketch no_oled = Some s'"
    by blast
  then have "game_state s' = Idle"
    using w by blast
  then have 1: "map_option game_state (setup_sketch no_oled) = Some Idle"
    using s' by simp
  have 2: "spec_failures (oledOk no_oled) = 5"
    using w by (simp add: no_oled_def)
  have 3: "setup_sketch no_bus = None"
    using bring_up_retries [of no_bus power_on "oledOk no_bus"] ex by (simp add: no_bus_def)
  have 4: "setup_sketch no_mpu = None"
    using bring_up_retries [of no_mpu power_on "oledOk no_mpu"] ex by (simp add: no_mpu_def)
  have 5: "initializeOLED no_oled power_on = spec_retry_result oled_attempt (oledOk no_oled) power_on"
    using w by blast
  show ?thesis
    using 1 2 3 4 unfolding 5
    by (simp add: spec_retry_result_def spec_retries_def oled_attempt_def power_on_def
        eval_nat_numeral)
qed

section \<open>Passes of the loop\<close>

lemma loop_recover:
  "loop e s =
     (let s = recover s;
          s = (if \<not> gameStarted s \<and> buttonLow1 e then startGame e (delay 200 s) else s);
          s = (if gameStarted s \<and> \<not> gameOver s then checkPlayerInput e s else s);
          s = (if gameOver s \<and> buttonLow2 e then resetGame (delay 200 s) else s)
      in delay 50 s)"
  by (simp only: loop_def recover_def Let_def)

lemma recover_fields [simp]:
  "sequence (recover s) = sequence s"
  "currentLevel (recover s) = currentLevel s"
  "gameStarted (recover s) = gameStarted s"
  "gameOver (recover s) = gameOver s"
  "lastInputTime (recover s) = lastInputTime s"
  "currentMove (recover s) = currentMove s"
  "clock (recover s) = clock s"
  by (simp_all add: recover_def Let_def)

lemma checkPlayerInput_fresh:
  assumes "lastInputTime s = clock s" and "gesture e = None"
  shows "checkPlayerInput e s = s"
  using assms by (simp add: checkPlayerInput_gesture millis_def INPUT_TIMEOUT_def)

lemma loop_start:
  assumes "\<not> gameStarted s" and "\<not> gameOver s" and "buttonLow1 e" and "gesture e = None"
    and "length (sequence s) = nat MAX_LEVEL"
  shows "in_game (map (\<lambda>k. random_max 4 (rawRandom e k)) [0..<nat MAX_LEVEL]) 1 (currentMove s)
           (loop e s)"
proof -
  let ?s = "startGame e (delay 200 (recover s))"
  have stamp: "lastInputTime ?s = clock ?s"
    by (simp add: startGame_def)
  have "loop e s = delay 50 ?s"
    using assms checkPlayerInput_fresh [OF stamp assms(4)]
    by (simp add: loop_recover Let_def)
  moreover have "sequence ?s = map (\<lambda>k. random_max 4 (rawRandom e k)) [0..<nat MAX_LEVEL]"
    using assms(5) by (simp add: startGame_def startGame_generate_sequence)
  ultimately show ?thesis
    using stamp by (simp add: in_game_def millis_def)
qed

lemma loop_right_more:
  assumes "in_game xs lvl cur s" and "gesture e = Some (xs ! nat cur)" and "cur + 1 < lvl"
  shows "in_game xs lvl (cur + 1) (loop e s)"
proof -
  have "checkPlayerInput e (recover s) =
      (emit Display (emit ClearDisplay (delay 300 (UpArrow (recover s)))))
        \<lparr>currentMove := cur + 1, lastInputTime := clock s + 300\<rparr>"
    using assms
    by (simp add: checkPlayerInput_gesture handlePlayerMove_def Let_def in_game_def millis_def
        INPUT_TIMEOUT_def)
  then show ?thesis
    using assms by (simp add: loop_recover Let_def in_game_def millis_def)
qed

lemma loop_right_level:
  assumes "in_game xs lvl cur s" and "gesture e = Some (xs ! nat cur)" and "lvl \<le> cur + 1"
    and "lvl < MAX_LEVEL"
  shows "in_game xs (lvl + 1) 0 (loop e s)"
proof -
  have "checkPlayerInput e (recover s) =
      playSequence ((emit Display (emit ClearDisplay (delay 300 (UpArrow (recover s)))))
        \<lparr>lastInputTime := clock s + 300, currentMove := 0, currentLevel := lvl + 1\<rparr>)"
    using assms
    by (simp add: checkPlayerInput_gesture handlePlayerMove_def Let_def in_game_def millis_def
        INPUT_TIMEOUT_def)
  then show ?thesis
    using assms by (simp add: loop_recover Let_def in_game_def millis_def)
qed

lemma loop_wrong:
  assumes "in_game xs lvl cur s" and "gesture e = Some g" and "g \<noteq> xs ! nat cur"
    and "\<not> buttonLow2 e" and "lvl \<le> MAX_LEVEL"
  shows "game_state (loop e s) = Lost \<and> currentLevel (loop e s) = lvl
       \<and> currentMove (loop e s) = cur \<and> sequence (loop e s) = xs"
proof -
  have "checkPlayerInput e (recover s) = showGameOverScreen
      ((emit Display (emit ClearDisplay (delay 300 (UpArrow (recover s)))))\<lparr>gameOver := True\<rparr>)"
    using assms
    by (simp add: checkPlayerInput_gesture handlePlayerMove_def Let_def in_game_def millis_def
        INPUT_TIMEOUT_def)
  then show ?thesis
    using assms by (simp add: loop_recover Let_def in_game_def game_state_Lost)
qed

lemma loop_reset:
  assumes "game_state s = Lost \<or> game_state s = Won" and "buttonLow2 e"
  shows "game_state (loop e s) = Idle \<and> \<not> gameOver (loop e s)
       \<and> currentLevel (loop e s) = currentLevel s
       \<and> currentMove (loop e s) = currentMove s \<and> sequence (loop e s) = sequence s"
proof -
  have "gameStarted s \<and> gameOver s"
    using assms(1) by (auto simp: game_state_def split: if_splits)
  then show ?thesis
    using assms(2) by (simp add: loop_recover Let_def game_state_def)
qed

section \<open>A game played without a mistake\<close>

text \<open>When a game starts with the cursor at 0, the moves \<open>perfect_moves\<close> win it. This is the
  case for the first game after power-on.\<close>

lemma setup_sketch_booted:
  assumes "setup_sketch h = Some s"
  shows "\<exists>c t. s = booted c t"
  using assms
  by (auto simp: setup_sketch_def Let_def initializeI2C_spec initializeMPU_spec
      initializeOLED_spec spec_retry_result_def halt_None power_on_def booted_def emit_def
      delay_def showStartScreen_def split: if_splits)

lemma run_append: "run (es @ fs) s = run fs (run es s)"
  by (induction es arbitrary: s) simp_all

lemma loop_right_win:
  assumes "in_game xs lvl cur s" and "gesture e = Some (xs ! nat cur)" and "lvl \<le> cur + 1"
    and "lvl = MAX_LEVEL" and "\<not> buttonLow2 e"
  shows "game_state (loop e s) = Won"
proof -
  have "gameOver (checkPlayerInput e (recover s)) \<and> gameStarted (checkPlayerInput e (recover s))
      \<and> currentLevel (checkPlayerInput e (recover s)) = MAX_LEVEL + 1"
    using assms
    by (simp add: checkPlayerInput_gesture handlePlayerMove_def Let_def in_game_def millis_def
        INPUT_TIMEOUT_def)
  then show ?thesis
    using assms by (simp add: loop_recover Let_def in_game_def game_state_def)
qed

lemma finish_level:
  assumes "in_game xs (int n) (int c) s" and "c < n" and "n \<le> length xs" and "int n \<le> MAX_LEVEL"
    and "map gesture es = map Some (drop c (take n xs))"
    and "\<forall>e \<in> set es. \<not> buttonLow2 e"
  shows "(int n < MAX_LEVEL \<longrightarrow> in_game xs (int n + 1) 0 (run es s))
       \<and> (int n = MAX_LEVEL \<longrightarrow> game_state (run es s) = Won)"
  using assms
proof (induction "n - c" arbitrary: c s es)
  case 0
  then show ?case by simp
next
  case (Suc k)
  have c: "c < length (take n xs)"
    using Suc.prems by simp
  have "drop c (take n xs) = xs ! c # drop (Suc c) (take n xs)"
    using Cons_nth_drop_Suc [OF c] Suc.prems by simp
  with Suc.prems obtain e es' where es: "es = e # es'" and e: "gesture e = Some (xs ! c)"
    and es': "map gesture es' = map Some (drop (Suc c) (take n xs))"
    by (auto simp: map_eq_Cons_conv)
  have nb: "\<not> buttonLow2 e" "\<forall>e \<in> set es'. \<not> buttonLow2 e"
    using Suc.prems es by simp_all
  show ?case
  proof (cases "Suc c < n")
    case True
    have "in_game xs (int n) (int c + 1) (loop e s)"
      using loop_right_more [OF Suc.prems(1), of e] e True by simp
    then have "in_game xs (int n) (int (Suc c)) (loop e s)"
      by (simp add: add.commute)
    from Suc.hyps(1) [OF _ this True Suc.prems(3,4) es' nb(2)] Suc.hyps(2)
    show ?thesis
      by (simp add: es)
  next
    case False
    with Suc.prems have last: "Suc c = n" by simp
    then have "es' = []"
      using es' by simp
    moreover have "int n < MAX_LEVEL \<longrightarrow> in_game xs (int n + 1) 0 (loop e s)"
      using loop_right_level [OF Suc.prems(1), of e] e last by auto
    moreover have "int n = MAX_LEVEL \<longrightarrow> game_state (loop e s) = Won"
      using loop_right_win [OF Suc.prems(1), of e] e last nb(1) by auto
    ultimately show ?thesis
      by (simp add: es)
  qed
qed

lemma finish_game:
  assumes "in_game xs (int n) 0 s" and "1 \<le> n" and "n \<le> nat MAX_LEVEL"
    and "length xs = nat MAX_LEVEL"
    and "map gesture es = map Some (concat (map (\<lambda>l. take l xs) [n..<Suc (nat MAX_LEVEL)]))"
    and "\<forall>e \<in> set es. \<not> buttonLow2 e"
  shows "game_state (run es s) = Won"
  using assms
proof (induction "nat MAX_LEVEL - n" arbitrary: n s es)
  case 0
  then have n: "n = nat MAX_LEVEL" by simp
  then have "[n..<Suc (nat MAX_LEVEL)] = [n]"
    by simp
  with "0.prems" have "map gesture es = map Some (drop 0 (take n xs))"
    by simp
  from finish_level [OF _ _ _ _ this "0.prems"(6), of s] "0.prems" n
  show ?case
    by (simp add: MAX_LEVEL_def)
next
  case (Suc k)
  then have n: "n < nat MAX_LEVEL" by simp
  then have "[n..<Suc (nat MAX_LEVEL)] = n # [Suc n..<Suc (nat MAX_LEVEL)]"
    by (intro upt_conv_Cons) simp
  with Suc.prems(5) have "map gesture es = map Some (drop 0 (take n xs)) @
      map Some (concat (map (\<lambda>l. take l xs) [Suc n..<Suc (nat MAX_LEVEL)]))"
    by (simp del: upt_Suc)
  then have "\<exists>es1 es2. es = es1 @ es2 \<and> map Some (drop 0 (take n xs)) = map gesture es1 \<and>
      map Some (concat (map (\<lambda>l. take l xs) [Suc n..<Suc (nat MAX_LEVEL)])) = map gesture es2"
    by (simp only: map_eq_append_conv)
  then obtain es1 es2 where es: "es = es1 @ es2"
    and es1: "map gesture es1 = map Some (drop 0 (take n xs))"
    and es2: "map gesture es2 =
        map Some (concat (map (\<lambda>l. take l xs) [Suc n..<Suc (nat MAX_LEVEL)]))"
    by metis
  have nb: "\<forall>e \<in> set es1. \<not> buttonLow2 e" "\<forall>e \<in> set es2. \<not> buttonLow2 e"
    using Suc.prems es by simp_all
  have "in_game xs (int n + 1) 0 (run es1 s)"
    using finish_level [OF _ _ _ _ es1 nb(1), of s] Suc.prems n by (simp add: MAX_LEVEL_def)
  then have "in_game xs (int (Suc n)) 0 (run es1 s)"
    by (simp add: add.commute)
  from Suc.hyps(1) [OF _ this _ _ Suc.prems(4) es2 nb(2)] Suc.hyps(2) n
  show ?case
    by (simp add: es run_append)
qed

lemma perfect_game_wins:
  assumes "in_game xs 1 0 s" and "length xs = nat MAX_LEVEL"
    and "map gesture es = map Some (perfect_moves xs)"
    and "\<forall>e \<in> set es. \<not> buttonLow2 e"
  shows "game_state (run es s) = Won"
proof (rule finish_game [of xs 1])
  show "in_game xs (int 1) 0 s"
    using assms(1) by simp
  show "map gesture es = map Some (concat (map (\<lambda>l. take l xs) [1..<Suc (nat MAX_LEVEL)]))"
    using assms(3) by (simp only: perfect_moves_def)
  show "1 \<le> nat MAX_LEVEL"
    by (simp add: MAX_LEVEL_def)
qed (use assms in simp_all)

lemma first_game_wins:
  assumes "setup_sketch h = Some s" and "buttonLow1 e" and "gesture e = None"
    and "map gesture es = map Some
       (perfect_moves (map (\<lambda>k. random_max 4 (rawRandom e k)) [0..<nat MAX_LEVEL]))"
    and "\<forall>e \<in> set es. \<not> buttonLow2 e"
  shows "game_state (run (e # es) s) = Won"
proof -
  obtain c t where s: "s = booted c t"
    using setup_sketch_booted [OF assms(1)] by blast
  have "in_game (map (\<lambda>k. random_max 4 (rawRandom e k)) [0..<nat MAX_LEVEL]) 1 (currentMove s)
      (loop e s)"
    using assms(2,3) by (intro loop_start) (simp_all add: s booted_def)
  then have "in_game (map (\<lambda>k. random_max 4 (rawRandom e k)) [0..<nat MAX_LEVEL]) 1 0 (loop e s)"
    by (simp add: s booted_def)
  then have "game_state (run es (loop e s)) = Won"
    using assms(4,5) by (intro perfect_game_wins) simp_all
  then show ?thesis by simp
qed

section \<open>A second game after a lost one\<close>

lemma boot_all_ok: "\<exists>t. setup_sketch all_ok = Some (booted 2000 t)"
  by (simp add: setup_sketch_def Let_def initializeI2C_def initializeMPU_def initializeOLED_def
     initializeI2C_loop.simps initializeMPU_loop.simps initializeOLED_loop.simps all_ok_def
     power_on_def emit_def delay_def showStartScreen_def booted_def)

lemma actions [simp]:
  "buttonLow1 press" "buttonLow2 press" "gesture press = None"
  "\<not> buttonLow1 tilt_up" "\<not> buttonLow2 tilt_up" "gesture tilt_up = Some 0"
  "\<not> buttonLow1 tilt_down" "\<not> buttonLow2 tilt_down" "gesture tilt_down = Some 1"
  "\<not> buttonLow1 tilt_left" "\<not> buttonLow2 tilt_left" "gesture tilt_left = Some 2"
  "\<not> buttonLow1 tilt_right" "\<not> buttonLow2 tilt_right" "gesture tilt_right = Some 3"
  by (simp_all add: press_def tilt_up_def tilt_down_def tilt_left_def tilt_right_def)

lemma press_starts:
  assumes "\<not> gameStarted s" and "\<not> gameOver s" and "length (sequence s) = 10"
  shows "in_game udlr 1 (currentMove s) (loop press s)"
proof -
  have "map (\<lambda>k. random_max 4 (rawRandom press k)) [0..<nat MAX_LEVEL] = udlr"
    by (simp add: press_def MAX_LEVEL_def random_max_def upt_10 udlr_def)
  then show ?thesis
    using loop_start [of s press] assms by (simp add: MAX_LEVEL_def)
qed

lemma udlr_nth [simp]: "udlr ! 0 = 0" "udlr ! Suc 0 = 1" "udlr ! 2 = 2" "length udlr = 10"
  by (simp_all add: udlr_def)

lemma in_game_observe: "in_game xs lvl cur s \<Longrightarrow> observe s = (AwaitingInput, lvl, cur)"
  by (simp add: in_game_def observe_def game_state_def)

lemma first_game_level2:
  assumes "setup_sketch all_ok = Some s"
  shows "in_game udlr 2 0 (run [press, tilt_up] s)"
proof -
  obtain t where "setup_sketch all_ok = Some (booted 2000 t)"
    using boot_all_ok by blast
  with assms have s: "s = booted 2000 t" by simp
  have "in_game udlr 1 0 (loop press s)"
    using press_starts [of s] by (simp add: s booted_def MAX_LEVEL_def)
  then have "in_game udlr 2 0 (loop tilt_up (loop press s))"
    using loop_right_level [of udlr 1 0 _ tilt_up] by (simp add: MAX_LEVEL_def)
  then show ?thesis by simp
qed

lemma lost_at_level2:
  assumes "setup_sketch all_ok = Some s"
  shows "observe (run [press, tilt_up, tilt_up, tilt_up] s) = (Lost, 2, 1)"
    and "sequence (run [press, tilt_up, tilt_up, tilt_up] s) = udlr"
proof -
  define s2 where "s2 = run [press, tilt_up] s"
  have 2: "in_game udlr 2 0 s2"
    unfolding s2_def using assms by (rule first_game_level2)
  have 3: "in_game udlr 2 1 (loop tilt_up s2)"
    using loop_right_more [OF 2, of tilt_up] by simp
  have 4: "game_state (loop tilt_up (loop tilt_up s2)) = Lost
      \<and> currentLevel (loop tilt_up (loop tilt_up s2)) = 2
      \<and> currentMove (loop tilt_up (loop tilt_up s2)) = 1
      \<and> sequence (loop tilt_up (loop tilt_up s2)) = udlr"
    using loop_wrong [OF 3, of tilt_up 0] by (simp add: MAX_LEVEL_def)
  have r: "run [press, tilt_up, tilt_up, tilt_up] s = loop tilt_up (loop tilt_up s2)"
    by (simp add: s2_def)
  show "observe (run [press, tilt_up, tilt_up, tilt_up] s) = (Lost, 2, 1)"
    unfolding r using 4 by (simp add: observe_def)
  show "sequence (run [press, tilt_up, tilt_up, tilt_up] s) = udlr"
    unfolding r using 4 by simp
qed

lemma second_game_starts:
  assumes "setup_sketch all_ok = Some s"
  shows "in_game udlr 1 1 (run [press, tilt_up, tilt_up, tilt_up, press, press] s)"
proof -
  define s4 where "s4 = run [press, tilt_up, tilt_up, tilt_up] s"
  have 4: "observe s4 = (Lost, 2, 1)" "sequence s4 = udlr"
    unfolding s4_def using assms by (rule lost_at_level2)+
  then have "game_state s4 = Lost \<or> game_state s4 = Won"
    by (simp add: observe_def)
  from loop_reset [OF this, of press] 4
  have 5: "\<not> gameStarted (loop press s4)" "\<not> gameOver (loop press s4)"
    "currentMove (loop press s4) = 1" "length (sequence (loop press s4)) = 10"
    by (simp_all add: observe_def game_state_def split: if_splits)
  have "in_game udlr 1 1 (loop press (loop press s4))"
    using press_starts [OF 5(1,2,4)] 5(3) by simp
  moreover have "run [press, tilt_up, tilt_up, tilt_up, press, press] s = loop press (loop press s4)"
    by (simp add: s4_def)
  ultimately show ?thesis by simp
qed

text \<open>
  Claim C1 says that, while input is awaited, the engine goes to the lost state if and only
  if the gesture differs from the expected element of the sequence or the timeout has passed,
  and never under correct, timely input. After the run above the second game awaits the first
  move of level 1, 50 ms after the end of the playback; the sequence begins with Up. Tilting
  Up loses the game; tilting Down is accepted and completes the level.
\<close>

theorem timely_matching_move_lost:
  "map_option (in_game udlr 1 1)
     (sketch all_ok [press, tilt_up, tilt_up, tilt_up, press, press]) = Some True
   \<and> udlr ! 0 = 0 \<and> gesture tilt_up = Some 0 \<and> gesture tilt_down = Some 1
   \<and> map_option game_state
       (sketch all_ok [press, tilt_up, tilt_up, tilt_up, press, press, tilt_up]) = Some Lost
   \<and> map_option observe
       (sketch all_ok [press, tilt_up, tilt_up, tilt_up, press, press, tilt_down])
       = Some (AwaitingInput, 2, 0)"
proof -
  obtain s where s: "setup_sketch all_ok = Some s"
    using boot_all_ok by blast
  define s6 where "s6 = run [press, tilt_up, tilt_up, tilt_up, press, press] s"
  have 6: "in_game udlr 1 1 s6"
    unfolding s6_def using s by (rule second_game_starts)
  have up: "game_state (loop tilt_up s6) = Lost"
    using loop_wrong [OF 6, of tilt_up 0] by (simp add: MAX_LEVEL_def)
  have "in_game udlr (1 + 1) 0 (loop tilt_down s6)"
    using loop_right_level [OF 6, of tilt_down] by (simp add: MAX_LEVEL_def)
  then have down: "observe (loop tilt_down s6) = (AwaitingInput, 2, 0)"
    using in_game_observe [of udlr 2 0] by simp
  have "run [press, tilt_up, tilt_up, tilt_up, press, press, tilt_up] s = loop tilt_up s6"
    and "run [press, tilt_up, tilt_up, tilt_up, press, press, tilt_down] s = loop tilt_down s6"
    by (simp_all add: s6_def)
  then show ?thesis
    using 6 up down by (simp add: sketch_def s s6_def)
qed

text \<open>
  Claim C3 says that a button press in a terminal state brings the engine back to idle with
  the level and the cursor cleared, so that the next game begins at level 1 with the cursor
  at 0. \<^verbatim>\<open>resetGame\<close> clears the two flags only; \<^verbatim>\<open>startGame\<close> sets the level to 1; nothing
  resets the static \<^verbatim>\<open>currentMove\<close> but the completion of a level. Here the first game is lost
  at level 2 with the cursor at 1, the button is pressed twice (reset, then start), and the
  second game begins at level 1 with the cursor still at 1.
\<close>

theorem restart_keeps_cursor:
  "map_option observe (sketch all_ok [press, tilt_up, tilt_up, tilt_up]) = Some (Lost, 2, 1)
   \<and> map_option observe (sketch all_ok [press, tilt_up, tilt_up, tilt_up, press, press])
       = Some (AwaitingInput, 1, 1)"
proof -
  obtain s where s: "setup_sketch all_ok = Some s"
    using boot_all_ok by blast
  show ?thesis
    using lost_at_level2(1) [OF s] in_game_observe [OF second_game_starts [OF s]]
    by (simp add: sketch_def s)
qed

text \<open>
  Claim C2 says that a player who supplies the matching gesture for every element of every
  level ends in the won state, never in the lost one. In the second game of the run above the
  sequence begins with Up and level 1 consists of that element alone; the player tilts Up,
  the sketch compares the move with \<^verbatim>\<open>sequence[1]\<close> (Down), and the game is lost. (A game
  that starts with the cursor at 0 is won by these moves: \<open>perfect_game_wins\<close> above.)
\<close>

theorem matching_move_loses:
  "map_option observe (sketch all_ok [press, tilt_up, tilt_up, tilt_up, press, press, tilt_up])
     = Some (Lost, 1, 1)
   \<and> map_option sequence
       (sketch all_ok [press, tilt_up, tilt_up, tilt_up, press, press, tilt_up]) = Some udlr
   \<and> gesture tilt_up = Some (udlr ! 0)"
proof -
  obtain s where s: "setup_sketch all_ok = Some s"
    using boot_all_ok by blast
  define s6 where "s6 = run [press, tilt_up, tilt_up, tilt_up, press, press] s"
  have 6: "in_game udlr 1 1 s6"
    unfolding s6_def using s by (rule second_game_starts)
  have 7: "game_state (loop tilt_up s6) = Lost \<and> currentLevel (loop tilt_up s6) = 1
      \<and> currentMove (loop tilt_up s6) = 1 \<and> sequence (loop tilt_up s6) = udlr"
    using loop_wrong [OF 6, of tilt_up 0] by (simp add: MAX_LEVEL_def)
  have "run [press, tilt_up, tilt_up, tilt_up, press, press, tilt_up] s = loop tilt_up s6"
    by (simp add: s6_def)
  then show ?thesis
    using 7 by (simp add: sketch_def s observe_def)
qed

text \<open>
  Claim C4 says that in every reachable state the cursor is at most the current level. Here
  the first game is lost at level 3 with the cursor at 2; after reset and start the level
  is 1 and the cursor is still 2.
\<close>

theorem cursor_exceeds_level:
  "map_option observe (sketch all_ok
     [press, tilt_up, tilt_up, tilt_down, tilt_up, tilt_down, tilt_up, press, press])
   = Some (AwaitingInput, 1, 2)"
proof -
  obtain s where s: "setup_sketch all_ok = Some s"
    using boot_all_ok by blast
  define s2 where "s2 = run [press, tilt_up] s"
  define s7 where "s7 = loop tilt_up (loop tilt_down (loop tilt_up (loop tilt_down (loop tilt_up s2))))"
  have 2: "in_game udlr 2 0 s2"
    unfolding s2_def using s by (rule first_game_level2)
  have 3: "in_game udlr 2 1 (loop tilt_up s2)"
    using loop_right_more [OF 2, of tilt_up] by simp
  have 4: "in_game udlr 3 0 (loop tilt_down (loop tilt_up s2))"
    using loop_right_level [OF 3, of tilt_down] by (simp add: MAX_LEVEL_def)
  have 5: "in_game udlr 3 1 (loop tilt_up (loop tilt_down (loop tilt_up s2)))"
    using loop_right_more [OF 4, of tilt_up] by simp
  have 6: "in_game udlr 3 2 (loop tilt_down (loop tilt_up (loop tilt_down (loop tilt_up s2))))"
    using loop_right_more [OF 5, of tilt_down] by simp
  have 7: "game_state s7 = Lost \<and> currentLevel s7 = 3 \<and> currentMove s7 = 2 \<and> sequence s7 = udlr"
    unfolding s7_def using loop_wrong [OF 6, of tilt_up 0] by (simp add: MAX_LEVEL_def)
  then have "game_state s7 = Lost \<or> game_state s7 = Won"
    by simp
  from loop_reset [OF this, of press] 7
  have 8: "\<not> gameStarted (loop press s7)" "\<not> gameOver (loop press s7)"
    "currentMove (loop press s7) = 2" "length (sequence (loop press s7)) = 10"
    by (simp_all add: game_state_def split: if_splits)
  have 9: "in_game udlr 1 2 (loop press (loop press s7))"
    using press_starts [OF 8(1,2,4)] 8(3) by simp
  have "run [press, tilt_up, tilt_up, tilt_down, tilt_up, tilt_down, tilt_up, press, press] s
      = loop press (loop press s7)"
    by (simp add: s7_def s2_def)
  then show ?thesis
    using in_game_observe [OF 9] by (simp add: sketch_def s)
qed

end
